theory Spec2Isabelle
  imports Complex_Main
begin

section \<open>Data of the multi-lidar-fusion engine\<close>

text \<open>
  The engine of \<^verbatim>\<open>mlf_engine.cc\<close> works on vectors of shared pointers. The object and
  track pools hand out instances that nobody else holds, so no two positions of a vector
  alias; a vector of pointers is modelled as the list of the values pointed to, and a
  write through \<^verbatim>\<open>v[i]->field\<close> as an update of position \<open>i\<close>. The trailing underscore
  of the C++ member names is dropped. The values of doubles and floats are reals.
  Negation is exact in IEEE arithmetic; addition rounds, so the addition of doubles and
  their comparison are not taken from the reals: they are the parameters \<open>double_add\<close>
  and \<open>double_ge\<close> of the model, and nothing proved here depends on what they compute.
\<close>

type_synonym vec3 = "real \<times> real \<times> real"

definition Vector3_Zero :: vec3 where
  "Vector3_Zero = (0, 0, 0)"

fun vec_neg :: "vec3 \<Rightarrow> vec3" where
  "vec_neg (x, y, z) = (- x, - y, - z)"

fun vec_add :: "(real \<Rightarrow> real \<Rightarrow> real) \<Rightarrow> vec3 \<Rightarrow> vec3 \<Rightarrow> vec3" where
  "vec_add add (a, b, c) (x, y, z) = (add a x, add b y, add c z)"

text \<open>What can go wrong in a vector access: \<^verbatim>\<open>at()\<close> throws \<^verbatim>\<open>std::out_of_range\<close>,
  \<^verbatim>\<open>operator[]\<close> past the end is undefined behaviour, and a \<^verbatim>\<open>resize\<close> that grows a
  vector of shared pointers pads it with null pointers, which no list of values holds.\<close>

datatype error = out_of_range | undefined_behaviour | null_padding

definition vec_at :: "'a list \<Rightarrow> nat \<Rightarrow> error + 'a" where
  "vec_at xs i = (if i < length xs then Inr (xs ! i) else Inl out_of_range)"

definition vec_at_assign :: "'a list \<Rightarrow> nat \<Rightarrow> 'a \<Rightarrow> error + 'a list" where
  "vec_at_assign xs i v = (if i < length xs then Inr (xs[i := v]) else Inl out_of_range)"

definition vec_index :: "'a list \<Rightarrow> nat \<Rightarrow> error + 'a" where
  "vec_index xs i = (if i < length xs then Inr (xs ! i) else Inl undefined_behaviour)"

definition resize :: "nat \<Rightarrow> 'a list \<Rightarrow> error + 'a list" where
  "resize n xs = (if n \<le> length xs then Inr (take n xs) else Inl null_padding)"

text \<open>\<^verbatim>\<open>base::Object\<close>: a detection on input, a published object on output. Only the fields
  the engine touches are kept.\<close>

record object =
  track_id :: int
  latest_tracked_time :: real
  is_background :: bool
  velocity :: vec3
  acceleration :: vec3

text \<open>\<^verbatim>\<open>Eigen::Affine3d\<close>: a linear part and a translation.\<close>

record pose =
  rotation :: "real list"
  translation :: vec3

text \<open>Modelled from the spec: \<^verbatim>\<open>Eigen::Transform::pretranslate\<close> is library code; the
  offset is pre-applied to the translation of the pose, with the addition of doubles it
  is given, and the linear part is kept.\<close>

definition pretranslate :: "(real \<Rightarrow> real \<Rightarrow> real) \<Rightarrow> vec3 \<Rightarrow> pose \<Rightarrow> pose" where
  "pretranslate add v p = p\<lparr>translation := vec_add add v (translation p)\<rparr>"

record sensor_info =
  name :: string

record hdmap_struct =
  road_polygons :: "vec3 list list"
  junction_polygons :: "vec3 list list"
  road_boundary :: "(vec3 list \<times> vec3 list) list"

text \<open>\<^verbatim>\<open>LidarFrame\<close>; a null \<^verbatim>\<open>hdmap_struct\<close> pointer is \<open>None\<close>.\<close>

record lidar_frame =
  timestamp :: real
  sensor_info :: sensor_info
  lidar2world_pose :: pose
  segmented_objects :: "object list"
  tracked_objects :: "object list"
  hdmap_struct :: "hdmap_struct option"

text \<open>Modelled from the spec: the declarations of \<^verbatim>\<open>TrackedObject\<close> and \<^verbatim>\<open>MlfTrackData\<close> are
  in headers outside this file. A tracked object wraps a detection and carries optional
  shape features; a track has an identity, a pending-observation cache, its latest
  visible time and the predicted flag. The identity is suffixed, since the object has a
  field named \<^verbatim>\<open>track_id\<close> too.\<close>

record tracked_object =
  object_ptr :: object
  histogram_bin_size :: nat
  shape_features :: "real list"

record track_data =
  track_id_member :: int
  cached_objects :: "tracked_object list"
  latest_visible_time :: real
  is_current_state_predicted :: bool

text \<open>The members of \<^verbatim>\<open>MlfEngine\<close>. The member \<^verbatim>\<open>histogram_bin_size_\<close> is suffixed, since
  the tracked object has a field of the same name.\<close>

record engine =
  foreground_objects :: "tracked_object list"
  background_objects :: "tracked_object list"
  foreground_track_data :: "track_data list"
  background_track_data :: "track_data list"
  global_to_local_offset :: vec3
  sensor_to_local_pose :: pose
  use_histogram_for_match :: bool
  histogram_bin_size_member :: nat
  output_predict_objects :: bool
  reserved_invisible_time :: real
  use_frame_timestamp :: bool
  set_static_outside_hdmap :: bool

section \<open>Collaborators\<close>

text \<open>
  The matcher, the tracker, the pools, the sensor manager, the ROI test and the methods
  of \<^verbatim>\<open>TrackedObject\<close> and \<^verbatim>\<open>MlfTrackData\<close> are outside this file. Each is a parameter of
  the model: a function from the receiver and the arguments to the updated receiver or
  the result. A pool is the value of the initialised instance it hands out. The last two
  fields are the arithmetic of the platform: the rounded addition of two doubles, and
  the comparison \<^verbatim>\<open>>=\<close> of two doubles.
\<close>

record collaborators =
  Match :: "tracked_object list \<Rightarrow> track_data list \<Rightarrow> (nat \<times> nat) list \<times> nat list \<times> nat list"
  InitializeTrack :: "track_data \<Rightarrow> tracked_object \<Rightarrow> track_data"
  UpdateTrackDataWithObject :: "track_data \<Rightarrow> tracked_object \<Rightarrow> track_data"
  UpdateTrackDataWithoutObject :: "real \<Rightarrow> track_data \<Rightarrow> track_data"
  PushTrackedObjectToCache :: "track_data \<Rightarrow> tracked_object \<Rightarrow> track_data"
  GetAndCleanCachedObjectsInTimeInterval ::
    "track_data \<Rightarrow> tracked_object list \<Rightarrow> track_data \<times> tracked_object list"
  ToObject :: "track_data \<Rightarrow> vec3 \<Rightarrow> real \<Rightarrow> object \<Rightarrow> bool \<times> object"
  AttachObject :: "tracked_object \<Rightarrow> object \<Rightarrow> pose \<Rightarrow> vec3 \<Rightarrow> sensor_info \<Rightarrow> tracked_object"
  ComputeShapeFeatures :: "tracked_object \<Rightarrow> tracked_object"
  IsMainSensor :: "string \<Rightarrow> bool"
  IsObjectInRoi :: "hdmap_struct \<Rightarrow> object \<Rightarrow> bool"
  TrackedObjectPool :: tracked_object
  MlfTrackDataPool :: track_data
  ObjectPool :: object
  double_add :: "real \<Rightarrow> real \<Rightarrow> real"
  double_ge :: "real \<Rightarrow> real \<Rightarrow> bool"

text \<open>Modelled from the spec: \<^verbatim>\<open>BatchGet\<close> of a pool is outside this file; it appends the
  requested number of instances to the vector it is given.\<close>

definition BatchGet :: "'a \<Rightarrow> nat \<Rightarrow> 'a list \<Rightarrow> 'a list" where
  "BatchGet pool n data = data @ replicate n pool"

text \<open>Every call to a collaborator is recorded, in order, with the receiver as it was
  when called and the arguments.\<close>

datatype call =
    Call_TrackedObjectPool_BatchGet nat
  | Call_AttachObject tracked_object object pose vec3 sensor_info
  | Call_ComputeShapeFeatures tracked_object
  | Call_Match "tracked_object list" "track_data list"
  | Call_PushTrackedObjectToCache track_data tracked_object
  | Call_MlfTrackDataPool_Get
  | Call_InitializeTrack track_data tracked_object
  | Call_IsMainSensor string
  | Call_GetAndCleanCachedObjectsInTimeInterval track_data
  | Call_UpdateTrackDataWithObject track_data tracked_object
  | Call_UpdateTrackDataWithoutObject real track_data
  | Call_ObjectPool_BatchGet nat
  | Call_ToObject track_data vec3 real object
  | Call_IsObjectInRoi hdmap_struct object

section \<open>Stale eviction\<close>

function RemoveStale_loop ::
  "collaborators \<Rightarrow> engine \<Rightarrow> real \<Rightarrow> track_data list \<Rightarrow> nat \<Rightarrow> nat
     \<Rightarrow> error + (track_data list \<times> nat)" where
  "RemoveStale_loop c e ts tracks pos i =
     (if i < length tracks then
        (case vec_at tracks i of
           Inl err \<Rightarrow> Inl err
         | Inr track \<Rightarrow>
             if double_ge c (double_add c (latest_visible_time track) (reserved_invisible_time e)) ts then
               (case (if i \<noteq> pos then vec_at_assign tracks pos track else Inr tracks) of
                  Inl err \<Rightarrow> Inl err
                | Inr tracks' \<Rightarrow> RemoveStale_loop c e ts tracks' (pos + 1) (i + 1))
             else RemoveStale_loop c e ts tracks pos (i + 1))
      else Inr (tracks, pos))"
  by pat_completeness auto

termination
  by (relation "measure (\<lambda>(c, e, ts, tracks, pos, i). length tracks - i)")
     (auto simp: vec_at_assign_def split: if_splits)

declare RemoveStale_loop.simps [simp del]

definition RemoveStaleTrackData ::
  "collaborators \<Rightarrow> engine \<Rightarrow> real \<Rightarrow> track_data list \<Rightarrow> error + track_data list" where
  "RemoveStaleTrackData c e ts tracks =
     (case RemoveStale_loop c e ts tracks 0 0 of
        Inl err \<Rightarrow> Inl err
      | Inr (tracks', pos) \<Rightarrow> resize pos tracks')"

definition survives :: "collaborators \<Rightarrow> engine \<Rightarrow> real \<Rightarrow> track_data \<Rightarrow> bool" where
  "survives c e ts track \<longleftrightarrow> double_ge c (double_add c (latest_visible_time track) (reserved_invisible_time e)) ts"

section \<open>Partitioning and wrapping the detections\<close>

definition Split_body ::
  "collaborators \<Rightarrow> sensor_info \<Rightarrow> engine \<Rightarrow> call list \<Rightarrow> tracked_object \<Rightarrow> object
     \<Rightarrow> tracked_object \<times> engine \<times> call list" where
  "Split_body c si e calls t obj =
     (let t1 = AttachObject c t obj (sensor_to_local_pose e) (global_to_local_offset e) si;
          calls1 = calls @ [Call_AttachObject t obj (sensor_to_local_pose e)
                              (global_to_local_offset e) si];
          hist = (\<not> is_background obj \<and> use_histogram_for_match e);
          t2 = (if hist then t1\<lparr>histogram_bin_size := histogram_bin_size_member e\<rparr> else t1);
          t3 = (if hist then ComputeShapeFeatures c t2 else t2);
          calls2 = (if hist then calls1 @ [Call_ComputeShapeFeatures t2] else calls1);
          e' = (if is_background obj
                then e\<lparr>background_objects := background_objects e @ [t3]\<rparr>
                else e\<lparr>foreground_objects := foreground_objects e @ [t3]\<rparr>)
      in (t3, e', calls2))"

function Split_loop ::
  "collaborators \<Rightarrow> sensor_info \<Rightarrow> object list \<Rightarrow> tracked_object list \<Rightarrow> engine \<Rightarrow> call list \<Rightarrow> nat
     \<Rightarrow> error + (engine \<times> call list)" where
  "Split_loop c si objects trk e calls i =
     (if i < length objects then
        (case vec_index trk i of
           Inl err \<Rightarrow> Inl err
         | Inr t \<Rightarrow>
             (case vec_index objects i of
                Inl err \<Rightarrow> Inl err
              | Inr obj \<Rightarrow>
                  (case Split_body c si e calls t obj of
                     (t3, e', calls2) \<Rightarrow> Split_loop c si objects (trk[i := t3]) e' calls2 (i + 1))))
      else Inr (e, calls))"
  by pat_completeness auto

termination
  by (relation "measure (\<lambda>(c, si, objects, trk, e, calls, i). length objects - i)") auto

declare Split_loop.simps [simp del]

definition SplitAndTransformToTrackedObjects ::
  "collaborators \<Rightarrow> engine \<Rightarrow> call list \<Rightarrow> object list \<Rightarrow> sensor_info \<Rightarrow> error + (engine \<times> call list)" where
  "SplitAndTransformToTrackedObjects c e calls objects si =
     (let trk = BatchGet (TrackedObjectPool c) (length objects) [];
          calls1 = calls @ [Call_TrackedObjectPool_BatchGet (length objects)];
          e1 = e\<lparr>foreground_objects := []\<rparr>;
          e2 = e1\<lparr>background_objects := []\<rparr>
      in Split_loop c si objects trk e2 calls1 0)"

text \<open>What the loop body makes of one detection, and the calls it logs for it.\<close>

definition attached :: "collaborators \<Rightarrow> engine \<Rightarrow> sensor_info \<Rightarrow> object \<Rightarrow> tracked_object" where
  "attached c e si obj =
     AttachObject c (TrackedObjectPool c) obj (sensor_to_local_pose e) (global_to_local_offset e) si"

definition wants_histogram :: "engine \<Rightarrow> object \<Rightarrow> bool" where
  "wants_histogram e obj \<longleftrightarrow> \<not> is_background obj \<and> use_histogram_for_match e"

definition with_bin_size :: "collaborators \<Rightarrow> engine \<Rightarrow> sensor_info \<Rightarrow> object \<Rightarrow> tracked_object" where
  "with_bin_size c e si obj = (attached c e si obj)\<lparr>histogram_bin_size := histogram_bin_size_member e\<rparr>"

definition wrapped :: "collaborators \<Rightarrow> engine \<Rightarrow> sensor_info \<Rightarrow> object \<Rightarrow> tracked_object" where
  "wrapped c e si obj =
     (if wants_histogram e obj then ComputeShapeFeatures c (with_bin_size c e si obj)
      else attached c e si obj)"

definition wrap_calls :: "collaborators \<Rightarrow> engine \<Rightarrow> sensor_info \<Rightarrow> object \<Rightarrow> call list" where
  "wrap_calls c e si obj =
     Call_AttachObject (TrackedObjectPool c) obj (sensor_to_local_pose e) (global_to_local_offset e) si #
     (if wants_histogram e obj then [Call_ComputeShapeFeatures (with_bin_size c e si obj)] else [])"

section \<open>Association and cache update\<close>

fun assign_loop ::
  "collaborators \<Rightarrow> tracked_object list \<Rightarrow> (nat \<times> nat) list \<Rightarrow> track_data list \<Rightarrow> call list
     \<Rightarrow> error + (track_data list \<times> call list)" where
  "assign_loop c objects [] tracks calls = Inr (tracks, calls)"
| "assign_loop c objects ((track_id', object_id) # rest) tracks calls =
     (case vec_at tracks track_id' of
        Inl err \<Rightarrow> Inl err
      | Inr track \<Rightarrow>
          (case vec_index objects object_id of
             Inl err \<Rightarrow> Inl err
           | Inr obj \<Rightarrow>
               assign_loop c objects rest
                 (tracks[track_id' := PushTrackedObjectToCache c track obj])
                 (calls @ [Call_PushTrackedObjectToCache track obj])))"

fun create_loop ::
  "collaborators \<Rightarrow> tracked_object list \<Rightarrow> nat list \<Rightarrow> track_data list \<Rightarrow> call list
     \<Rightarrow> error + (track_data list \<times> call list)" where
  "create_loop c objects [] tracks calls = Inr (tracks, calls)"
| "create_loop c objects (id' # rest) tracks calls =
     (let track = MlfTrackDataPool c;
          calls1 = calls @ [Call_MlfTrackDataPool_Get]
      in case vec_index objects id' of
           Inl err \<Rightarrow> Inl err
         | Inr obj \<Rightarrow>
             create_loop c objects rest
               (tracks @ [InitializeTrack c track obj])
               (calls1 @ [Call_InitializeTrack track obj]))"

definition TrackObjectMatchAndAssign ::
  "collaborators \<Rightarrow> tracked_object list \<Rightarrow> track_data list \<Rightarrow> call list
     \<Rightarrow> error + (track_data list \<times> call list)" where
  "TrackObjectMatchAndAssign c objects tracks calls =
     (case Match c objects tracks of
        (assignments, unassigned_tracks, unassigned_objects) \<Rightarrow>
          (case assign_loop c objects assignments tracks (calls @ [Call_Match objects tracks]) of
             Inl err \<Rightarrow> Inl err
           | Inr (tracks1, calls1) \<Rightarrow> create_loop c objects unassigned_objects tracks1 calls1))"

text \<open>The objects that an assignment list sends to the track at one index, in order.\<close>

definition assigned_to :: "tracked_object list \<Rightarrow> (nat \<times> nat) list \<Rightarrow> nat \<Rightarrow> tracked_object list" where
  "assigned_to objects assignments i =
     map (\<lambda>pair. objects ! snd pair) (filter (\<lambda>pair. fst pair = i) assignments)"

text \<open>An association result is in range when its indices point into the two vectors.\<close>

definition in_range ::
  "(nat \<times> nat) list \<times> nat list \<times> nat list \<Rightarrow> tracked_object list \<Rightarrow> track_data list \<Rightarrow> bool" where
  "in_range m objects tracks \<longleftrightarrow>
     list_all (\<lambda>pair. fst pair < length tracks \<and> snd pair < length objects) (fst m)
     \<and> list_all (\<lambda>i. i < length objects) (snd (snd m))"

section \<open>State filtering\<close>

fun update_loop ::
  "collaborators \<Rightarrow> track_data \<Rightarrow> tracked_object list \<Rightarrow> call list \<Rightarrow> track_data \<times> call list" where
  "update_loop c track [] calls = (track, calls)"
| "update_loop c track (obj # rest) calls =
     update_loop c (UpdateTrackDataWithObject c track obj) rest
       (calls @ [Call_UpdateTrackDataWithObject track obj])"

fun TrackStateFilter_loop ::
  "collaborators \<Rightarrow> real \<Rightarrow> track_data list \<Rightarrow> tracked_object list \<Rightarrow> call list
     \<Rightarrow> track_data list \<times> call list" where
  "TrackStateFilter_loop c frame_timestamp [] objects calls = ([], calls)"
| "TrackStateFilter_loop c frame_timestamp (track # rest) objects calls =
     (case GetAndCleanCachedObjectsInTimeInterval c track objects of
        (track1, objects1) \<Rightarrow>
          (case update_loop c track1 objects1
                  (calls @ [Call_GetAndCleanCachedObjectsInTimeInterval track]) of
             (track2, calls2) \<Rightarrow>
               (case (if objects1 = []
                      then (UpdateTrackDataWithoutObject c frame_timestamp track2,
                            calls2 @ [Call_UpdateTrackDataWithoutObject frame_timestamp track2])
                      else (track2, calls2)) of
                  (track3, calls3) \<Rightarrow>
                    (case TrackStateFilter_loop c frame_timestamp rest objects1 calls3 of
                       (rest', calls4) \<Rightarrow> (track3 # rest', calls4)))))"

definition TrackStateFilter ::
  "collaborators \<Rightarrow> track_data list \<Rightarrow> real \<Rightarrow> call list \<Rightarrow> track_data list \<times> call list" where
  "TrackStateFilter c tracks frame_timestamp calls =
     TrackStateFilter_loop c frame_timestamp tracks [] calls"

section \<open>Result collection\<close>

fun collect ::
  "collaborators \<Rightarrow> engine \<Rightarrow> real \<Rightarrow> track_data list \<Rightarrow> object list \<Rightarrow> nat \<Rightarrow> nat \<Rightarrow> call list
     \<Rightarrow> error + (object list \<times> nat \<times> nat \<times> call list)" where
  "collect c e ts [] tracked pos num_predict calls = Inr (tracked, pos, num_predict, calls)"
| "collect c e ts (track # rest) tracked pos num_predict calls =
     (if \<not> output_predict_objects e \<and> is_current_state_predicted track then
        collect c e ts rest tracked pos (num_predict + 1) calls
      else
        (case vec_index tracked pos of
           Inl err \<Rightarrow> Inl err
         | Inr obj \<Rightarrow>
             (case ToObject c track (vec_neg (global_to_local_offset e)) ts obj of
                (ok, obj') \<Rightarrow>
                  if \<not> ok then
                    collect c e ts rest (tracked[pos := obj']) pos num_predict
                      (calls @ [Call_ToObject track (vec_neg (global_to_local_offset e)) ts obj])
                  else
                    collect c e ts rest (tracked[pos := obj']) (pos + 1) num_predict
                      (calls @ [Call_ToObject track (vec_neg (global_to_local_offset e)) ts obj]))))"

definition CollectTrackedResult_collect ::
  "collaborators \<Rightarrow> engine \<Rightarrow> lidar_frame \<Rightarrow> call list
     \<Rightarrow> error + (object list \<times> nat \<times> nat \<times> call list)" where
  "CollectTrackedResult_collect c e frame calls =
     (let num_objects = length (foreground_track_data e) + length (background_track_data e);
          tracked = BatchGet (ObjectPool c) num_objects [];
          calls1 = calls @ [Call_ObjectPool_BatchGet num_objects]
      in case collect c e (timestamp frame) (foreground_track_data e) tracked 0 0 calls1 of
           Inl err \<Rightarrow> Inl err
         | Inr (tracked1, pos1, num_predict1, calls2) \<Rightarrow>
             collect c e (timestamp frame) (background_track_data e) tracked1 pos1 num_predict1 calls2)"

definition CollectTrackedResult_finish :: "nat \<Rightarrow> nat \<Rightarrow> object list \<Rightarrow> error + object list" where
  "CollectTrackedResult_finish num_predict num_objects tracked =
     (if num_predict \<noteq> 0 then
        (if num_predict > num_objects then Inr tracked
         else resize (num_objects - num_predict) tracked)
      else Inr tracked)"

definition CollectTrackedResult ::
  "collaborators \<Rightarrow> engine \<Rightarrow> lidar_frame \<Rightarrow> call list \<Rightarrow> error + (lidar_frame \<times> call list)" where
  "CollectTrackedResult c e frame calls =
     (case CollectTrackedResult_collect c e frame calls of
        Inl err \<Rightarrow> Inl err
      | Inr (tracked, pos, num_predict, calls') \<Rightarrow>
          (case CollectTrackedResult_finish num_predict
                  (length (foreground_track_data e) + length (background_track_data e)) tracked of
             Inl err \<Rightarrow> Inl err
           | Inr tracked' \<Rightarrow> Inr (frame\<lparr>tracked_objects := tracked'\<rparr>, calls')))"

text \<open>A track is skipped by the collection when predicted output is off and the track is
  flagged predicted. The receivers of the \<^verbatim>\<open>ToObject\<close> calls in a log are the tracks that
  were materialised.\<close>

definition skipped :: "engine \<Rightarrow> track_data \<Rightarrow> bool" where
  "skipped e track \<longleftrightarrow> \<not> output_predict_objects e \<and> is_current_state_predicted track"

fun ToObject_receivers :: "call list \<Rightarrow> track_data list" where
  "ToObject_receivers [] = []"
| "ToObject_receivers (Call_ToObject track offset ts obj # calls) = track # ToObject_receivers calls"
| "ToObject_receivers (other # calls) = ToObject_receivers calls"

section \<open>The frame pipeline\<close>

text \<open>Steps 0 to 3 of \<^verbatim>\<open>Track\<close>: timestamps, offset and pose, partition, association.\<close>

definition Track_associate ::
  "collaborators \<Rightarrow> engine \<Rightarrow> lidar_frame \<Rightarrow> call list \<Rightarrow> error + (engine \<times> lidar_frame \<times> call list)" where
  "Track_associate c e frame calls =
     (let frame0 = (if use_frame_timestamp e
                    then frame\<lparr>segmented_objects :=
                           map (\<lambda>object. object\<lparr>latest_tracked_time := timestamp frame\<rparr>)
                             (segmented_objects frame)\<rparr>
                    else frame);
          e1 = (if foreground_track_data e = [] \<and> background_track_data e = []
                then e\<lparr>global_to_local_offset := vec_neg (translation (lidar2world_pose frame0))\<rparr>
                else e);
          e2 = e1\<lparr>sensor_to_local_pose := lidar2world_pose frame0\<rparr>;
          e3 = e2\<lparr>sensor_to_local_pose :=
                    pretranslate (double_add c) (global_to_local_offset e2) (sensor_to_local_pose e2)\<rparr>
      in case SplitAndTransformToTrackedObjects c e3 calls (segmented_objects frame0)
                (sensor_info frame0) of
           Inl err \<Rightarrow> Inl err
         | Inr (e4, calls4) \<Rightarrow>
             (case TrackObjectMatchAndAssign c (foreground_objects e4) (foreground_track_data e4) calls4 of
                Inl err \<Rightarrow> Inl err
              | Inr (fg, calls5) \<Rightarrow>
                  (case TrackObjectMatchAndAssign c (background_objects e4) (background_track_data e4)
                          calls5 of
                     Inl err \<Rightarrow> Inl err
                   | Inr (bg, calls6) \<Rightarrow>
                       Inr (e4\<lparr>foreground_track_data := fg, background_track_data := bg\<rparr>,
                            frame0, calls6))))"

text \<open>Steps 4 to 6: filtering and collection for the main sensor, then eviction.\<close>

definition Track_publish ::
  "collaborators \<Rightarrow> engine \<Rightarrow> lidar_frame \<Rightarrow> call list \<Rightarrow> error + (engine \<times> lidar_frame \<times> call list)" where
  "Track_publish c e frame calls =
     (let is_main_sensor = IsMainSensor c (name (sensor_info frame));
          calls1 = calls @ [Call_IsMainSensor (name (sensor_info frame))];
          (e2, calls3) =
            (if is_main_sensor then
               (case TrackStateFilter c (foreground_track_data e) (timestamp frame) calls1 of
                  (fg, calls2) \<Rightarrow>
                    (case TrackStateFilter c (background_track_data e) (timestamp frame) calls2 of
                       (bg, calls3) \<Rightarrow>
                         (e\<lparr>foreground_track_data := fg, background_track_data := bg\<rparr>, calls3)))
             else (e, calls1));
          frame1 = frame\<lparr>tracked_objects := []\<rparr>
      in case (if is_main_sensor then CollectTrackedResult c e2 frame1 calls3
               else Inr (frame1, calls3)) of
           Inl err \<Rightarrow> Inl err
         | Inr (frame2, calls4) \<Rightarrow>
             (case RemoveStaleTrackData c e2 (timestamp frame2)
                     (foreground_track_data e2) of
                Inl err \<Rightarrow> Inl err
              | Inr fg \<Rightarrow>
                  (case RemoveStaleTrackData c e2 (timestamp frame2)
                          (background_track_data e2) of
                     Inl err \<Rightarrow> Inl err
                   | Inr bg \<Rightarrow>
                       Inr (e2\<lparr>foreground_track_data := fg, background_track_data := bg\<rparr>,
                            frame2, calls4))))"

text \<open>The policy at the end of \<^verbatim>\<open>Track\<close>: objects outside the road structure are made static.\<close>

fun set_static_loop ::
  "collaborators \<Rightarrow> hdmap_struct \<Rightarrow> object list \<Rightarrow> call list \<Rightarrow> object list \<times> call list" where
  "set_static_loop c roi [] calls = ([], calls)"
| "set_static_loop c roi (obj # rest) calls =
     (if IsObjectInRoi c roi obj then
        (case set_static_loop c roi rest (calls @ [Call_IsObjectInRoi roi obj]) of
           (rest', calls') \<Rightarrow> (obj # rest', calls'))
      else
        (let obj1 = obj\<lparr>velocity := Vector3_Zero\<rparr>;
             obj2 = obj1\<lparr>acceleration := Vector3_Zero\<rparr>
         in case set_static_loop c roi rest (calls @ [Call_IsObjectInRoi roi obj]) of
              (rest', calls') \<Rightarrow> (obj2 # rest', calls')))"

definition Track_set_static ::
  "collaborators \<Rightarrow> engine \<Rightarrow> lidar_frame \<Rightarrow> call list \<Rightarrow> lidar_frame \<times> call list" where
  "Track_set_static c e frame calls =
     (case hdmap_struct frame of
        None \<Rightarrow> (frame, calls)
      | Some roi \<Rightarrow>
          if \<not> set_static_outside_hdmap e \<or>
             (road_polygons roi = [] \<and> junction_polygons roi = [] \<and> road_boundary roi = [])
          then (frame, calls)
          else (case set_static_loop c roi (tracked_objects frame) calls of
                  (tracked, calls') \<Rightarrow> (frame\<lparr>tracked_objects := tracked\<rparr>, calls')))"

definition Track_before_policy ::
  "collaborators \<Rightarrow> engine \<Rightarrow> lidar_frame \<Rightarrow> call list \<Rightarrow> error + (engine \<times> lidar_frame \<times> call list)" where
  "Track_before_policy c e frame calls =
     (case Track_associate c e frame calls of
        Inl err \<Rightarrow> Inl err
      | Inr (e1, frame1, calls1) \<Rightarrow> Track_publish c e1 frame1 calls1)"

definition Track ::
  "collaborators \<Rightarrow> engine \<Rightarrow> lidar_frame \<Rightarrow> call list
     \<Rightarrow> error + (bool \<times> engine \<times> lidar_frame \<times> call list)" where
  "Track c e frame calls =
     (case Track_before_policy c e frame calls of
        Inl err \<Rightarrow> Inl err
      | Inr (e2, frame2, calls2) \<Rightarrow>
          (case Track_set_static c e2 frame2 calls2 of
             (frame3, calls3) \<Rightarrow> Inr (True, e2, frame3, calls3)))"

definition matcher_in_range :: "collaborators \<Rightarrow> bool" where
  "matcher_in_range c \<longleftrightarrow> (\<forall>objects tracks. in_range (Match c objects tracks) objects tracks)"

text \<open>The calls of the filtering and collection steps.\<close>

fun filter_or_collect :: "call \<Rightarrow> bool" where
  "filter_or_collect (Call_GetAndCleanCachedObjectsInTimeInterval track) = True"
| "filter_or_collect (Call_UpdateTrackDataWithObject track obj) = True"
| "filter_or_collect (Call_UpdateTrackDataWithoutObject ts track) = True"
| "filter_or_collect (Call_ObjectPool_BatchGet n) = True"
| "filter_or_collect (Call_ToObject track offset ts obj) = True"
| "filter_or_collect other = False"

text \<open>The frame after step 0.\<close>

definition harmonized :: "engine \<Rightarrow> lidar_frame \<Rightarrow> lidar_frame" where
  "harmonized e frame =
     (if use_frame_timestamp e
      then frame\<lparr>segmented_objects :=
             map (\<lambda>object. object\<lparr>latest_tracked_time := timestamp frame\<rparr>) (segmented_objects frame)\<rparr>
      else frame)"

section \<open>A test double for the collaborators, and a small scene\<close>

text \<open>The test double adds and compares doubles as reals: the times of the scene are
  multiples of a quarter, on which the addition of doubles is exact.\<close>

definition stub_track :: track_data where
  "stub_track = \<lparr>track_id_member = 0, cached_objects = [], latest_visible_time = 0,
     is_current_state_predicted = False\<rparr>"

definition stub_object :: object where
  "stub_object = \<lparr>track_id = 0, latest_tracked_time = 0, is_background = False,
     velocity = Vector3_Zero, acceleration = Vector3_Zero\<rparr>"

definition stub_tracked_object :: tracked_object where
  "stub_tracked_object = \<lparr>object_ptr = stub_object, histogram_bin_size = 0, shape_features = []\<rparr>"

definition stub_collaborators :: collaborators where
  "stub_collaborators =
     \<lparr>Match = (\<lambda>objects tracks.
         (map (\<lambda>k. (k, k)) [0..<min (length tracks) (length objects)],
          [min (length tracks) (length objects)..<length tracks],
          [min (length tracks) (length objects)..<length objects])),
      InitializeTrack = (\<lambda>track obj.
         track\<lparr>track_id_member := track_id (object_ptr obj),
               cached_objects := [obj],
               latest_visible_time := latest_tracked_time (object_ptr obj),
               is_current_state_predicted := False\<rparr>),
      UpdateTrackDataWithObject = (\<lambda>track obj.
         track\<lparr>latest_visible_time := latest_tracked_time (object_ptr obj),
               is_current_state_predicted := False\<rparr>),
      UpdateTrackDataWithoutObject = (\<lambda>ts track. track\<lparr>is_current_state_predicted := True\<rparr>),
      PushTrackedObjectToCache = (\<lambda>track obj. track\<lparr>cached_objects := cached_objects track @ [obj]\<rparr>),
      GetAndCleanCachedObjectsInTimeInterval = (\<lambda>track objects.
         (track\<lparr>cached_objects := []\<rparr>, cached_objects track)),
      ToObject = (\<lambda>track offset ts obj.
         (True, obj\<lparr>track_id := track_id_member track, latest_tracked_time := ts,
                    velocity := (1, 0, 0)\<rparr>)),
      AttachObject = (\<lambda>t obj p offset si. t\<lparr>object_ptr := obj\<rparr>),
      ComputeShapeFeatures = (\<lambda>t. t\<lparr>shape_features := replicate (histogram_bin_size t) 0\<rparr>),
      IsMainSensor = (\<lambda>sensor. sensor = ''velodyne64''),
      IsObjectInRoi = (\<lambda>roi obj. track_id obj = 0),
      TrackedObjectPool = stub_tracked_object,
      MlfTrackDataPool = stub_track,
      ObjectPool = stub_object,
      double_add = (\<lambda>a b. a + b),
      double_ge = (\<lambda>a b. a \<ge> b)\<rparr>"

definition scene_engine :: engine where
  "scene_engine =
     \<lparr>foreground_objects = [], background_objects = [],
      foreground_track_data = [], background_track_data = [],
      global_to_local_offset = Vector3_Zero,
      sensor_to_local_pose = \<lparr>rotation = [1, 0, 0, 0, 1, 0, 0, 0, 1], translation = Vector3_Zero\<rparr>,
      use_histogram_for_match = True, histogram_bin_size_member = 10,
      output_predict_objects = False, reserved_invisible_time = 0.25,
      use_frame_timestamp = True, set_static_outside_hdmap = True\<rparr>"

definition scene_frame :: lidar_frame where
  "scene_frame =
     \<lparr>timestamp = 1, sensor_info = \<lparr>name = ''velodyne16_front''\<rparr>,
      lidar2world_pose = \<lparr>rotation = [1, 0, 0, 0, 1, 0, 0, 0, 1], translation = (100, 200, 3)\<rparr>,
      segmented_objects = [stub_object, stub_object\<lparr>is_background := True\<rparr>],
      tracked_objects = [],
      hdmap_struct = Some \<lparr>road_polygons = [[(0, 0, 0), (1, 0, 0), (1, 1, 0)]],
                            junction_polygons = [], road_boundary = []\<rparr>\<rparr>"

text \<open>A frame of the main sensor with three foreground detections.\<close>

definition scene_frame_main :: lidar_frame where
  "scene_frame_main =
     scene_frame\<lparr>sensor_info := \<lparr>name = ''velodyne64''\<rparr>,
       segmented_objects :=
         [stub_object, stub_object\<lparr>track_id := 1\<rparr>, stub_object\<lparr>track_id := 2\<rparr>]\<rparr>"

text \<open>A ledger with one observed and one predicted track.\<close>

definition scene_engine_tracked :: engine where
  "scene_engine_tracked =
     scene_engine\<lparr>foreground_track_data := [stub_track\<lparr>latest_visible_time := 1\<rparr>],
                  background_track_data := [stub_track\<lparr>is_current_state_predicted := True\<rparr>]\<rparr>"

section \<open>Properties\<close>

subsection \<open>Stale eviction\<close>

lemma RemoveStale_loop_invariant:
  "pos \<le> i \<Longrightarrow> i \<le> length tracks \<Longrightarrow>
   \<exists>tracks'. RemoveStale_loop c e ts tracks pos i =
        Inr (tracks', pos + length (filter (survives c e ts) (drop i tracks)))
      \<and> length tracks' = length tracks
      \<and> take (pos + length (filter (survives c e ts) (drop i tracks))) tracks' =
          take pos tracks @ filter (survives c e ts) (drop i tracks)"
proof (induction c e ts tracks pos i rule: RemoveStale_loop.induct)
  case (1 c e ts tracks pos i)
  show ?case
  proof (cases "i < length tracks")
    case False
    with "1.prems" show ?thesis by (subst RemoveStale_loop.simps) simp
  next
    case inb: True
    then have at_i: "vec_at tracks i = Inr (tracks ! i)"
      by (simp add: vec_at_def)
    have drop_i: "drop i tracks = tracks ! i # drop (Suc i) tracks"
      using inb by (simp add: Cons_nth_drop_Suc)
    show ?thesis
    proof (cases "double_ge c (double_add c (latest_visible_time (tracks ! i)) (reserved_invisible_time e)) ts")
      case stale: False
      then have nsurv: "\<not> survives c e ts (tracks ! i)"
        by (simp add: survives_def)
      have "pos \<le> i + 1" "i + 1 \<le> length tracks"
        using "1.prems" inb by simp_all
      from "1.IH"(2)[OF inb at_i stale this]
      obtain tracks' where
        run: "RemoveStale_loop c e ts tracks pos (i + 1) =
           Inr (tracks', pos + length (filter (survives c e ts) (drop (i + 1) tracks)))"
        and len: "length tracks' = length tracks"
        and tk: "take (pos + length (filter (survives c e ts) (drop (i + 1) tracks))) tracks' =
           take pos tracks @ filter (survives c e ts) (drop (i + 1) tracks)"
        by blast
      have unfold: "RemoveStale_loop c e ts tracks pos i =
          RemoveStale_loop c e ts tracks pos (i + 1)"
        using inb at_i stale by (subst RemoveStale_loop.simps) simp
      show ?thesis
        using run len tk unfold nsurv drop_i by simp
    next
      case live: True
      then have surv: "survives c e ts (tracks ! i)"
        by (simp add: survives_def)
      define tracks1 where "tracks1 = (if i \<noteq> pos then tracks[pos := tracks ! i] else tracks)"
      have pos_lt: "pos < length tracks"
        using "1.prems" inb by simp
      have assign: "(if i \<noteq> pos then vec_at_assign tracks pos (tracks ! i) else Inr tracks) = Inr tracks1"
        using pos_lt by (simp add: vec_at_assign_def tracks1_def)
      have len1: "length tracks1 = length tracks"
        by (simp add: tracks1_def)
      have drop1: "drop (Suc i) tracks1 = drop (Suc i) tracks"
        using "1.prems" by (simp add: tracks1_def)
      have take1: "take (Suc pos) tracks1 = take pos tracks @ [tracks ! i]"
        using pos_lt by (auto simp: tracks1_def take_Suc_conv_app_nth)
      have "pos + 1 \<le> i + 1" "i + 1 \<le> length tracks1"
        using "1.prems" inb len1 by simp_all
      from "1.IH"(1)[OF inb at_i live assign this]
      obtain tracks' where
        run: "RemoveStale_loop c e ts tracks1 (pos + 1) (i + 1) =
           Inr (tracks', pos + 1 + length (filter (survives c e ts) (drop (i + 1) tracks1)))"
        and len: "length tracks' = length tracks1"
        and tk: "take (pos + 1 + length (filter (survives c e ts) (drop (i + 1) tracks1))) tracks' =
           take (pos + 1) tracks1 @ filter (survives c e ts) (drop (i + 1) tracks1)"
        by blast
      have unfold: "RemoveStale_loop c e ts tracks pos i =
          RemoveStale_loop c e ts tracks1 (pos + 1) (i + 1)"
        using inb at_i live assign by (subst RemoveStale_loop.simps) simp
      show ?thesis
        using run len tk unfold len1 drop1 take1 drop_i surv by simp
    qed
  qed
qed

lemma RemoveStale_loop_from_start:
  "\<exists>tracks'. RemoveStale_loop c e ts tracks 0 0 =
        Inr (tracks', length (filter (survives c e ts) tracks))
      \<and> length tracks' = length tracks
      \<and> take (length (filter (survives c e ts) tracks)) tracks' =
          filter (survives c e ts) tracks"
  using RemoveStale_loop_invariant[of 0 0 tracks c e ts] by simp

lemma survives_eq:
  "survives c e ts = (\<lambda>track. double_ge c (double_add c (latest_visible_time track) (reserved_invisible_time e)) ts)"
  by (rule ext) (simp add: survives_def)

lemma RemoveStaleTrackData_closed:
  "RemoveStaleTrackData c e ts tracks =
     Inr (filter (\<lambda>track. double_ge c (double_add c (latest_visible_time track) (reserved_invisible_time e)) ts) tracks)"
proof -
  from RemoveStale_loop_from_start[of c e ts tracks]
  show ?thesis
    unfolding survives_eq by (auto simp: RemoveStaleTrackData_def resize_def)
qed


subsection \<open>Partitioning and wrapping\<close>

lemma wrapped_objects_update [simp]:
  "wrapped c (e\<lparr>foreground_objects := fg\<rparr>) = wrapped c e"
  "wrapped c (e\<lparr>background_objects := bg\<rparr>) = wrapped c e"
  by (intro ext, simp add: wrapped_def wants_histogram_def with_bin_size_def attached_def)+

lemma wrap_calls_objects_update [simp]:
  "wrap_calls c (e\<lparr>foreground_objects := fg\<rparr>) = wrap_calls c e"
  "wrap_calls c (e\<lparr>background_objects := bg\<rparr>) = wrap_calls c e"
  by (intro ext, simp add: wrap_calls_def wants_histogram_def with_bin_size_def attached_def)+

lemma Split_loop_closed:
  "length trk = length objects \<Longrightarrow> \<forall>j. i \<le> j \<and> j < length objects \<longrightarrow> trk ! j = TrackedObjectPool c \<Longrightarrow>
   Split_loop c si objects trk e calls i =
     Inr (e\<lparr>foreground_objects := foreground_objects e @
               map (wrapped c e si) (filter (\<lambda>obj. \<not> is_background obj) (drop i objects)),
            background_objects := background_objects e @
               map (wrapped c e si) (filter is_background (drop i objects))\<rparr>,
          calls @ concat (map (wrap_calls c e si) (drop i objects)))"
proof (induction c si objects trk e calls i rule: Split_loop.induct)
  case (1 c si objects trk e calls i)
  show ?case
  proof (cases "i < length objects")
    case False
    then show ?thesis by (subst Split_loop.simps) simp
  next
    case inb: True
    let ?obj = "objects ! i"
    have trk_i: "vec_index trk i = Inr (TrackedObjectPool c)"
      using inb "1.prems" by (simp add: vec_index_def)
    have obj_i: "vec_index objects i = Inr ?obj"
      using inb by (simp add: vec_index_def)
    have drop_i: "drop i objects = ?obj # drop (Suc i) objects"
      using inb by (simp add: Cons_nth_drop_Suc)
    define t3 where "t3 = wrapped c e si ?obj"
    define e' where "e' = (if is_background ?obj
                             then e\<lparr>background_objects := background_objects e @ [t3]\<rparr>
                             else e\<lparr>foreground_objects := foreground_objects e @ [t3]\<rparr>)"
    define calls2 where "calls2 = calls @ wrap_calls c e si ?obj"
    have body: "Split_body c si e calls (TrackedObjectPool c) ?obj = (t3, e', calls2)"
      by (simp add: Split_body_def Let_def t3_def e'_def calls2_def wrapped_def wrap_calls_def
            wants_histogram_def with_bin_size_def attached_def)
    have step: "Split_loop c si objects trk e calls i =
        Split_loop c si objects (trk[i := t3]) e' calls2 (i + 1)"
      using inb trk_i obj_i body by (subst Split_loop.simps) simp
    have len: "length (trk[i := t3]) = length objects"
      using "1.prems" by simp
    have rest: "\<forall>j. i + 1 \<le> j \<and> j < length objects \<longrightarrow> trk[i := t3] ! j = TrackedObjectPool c"
      using "1.prems" by simp
    have IH: "Split_loop c si objects (trk[i := t3]) e' calls2 (i + 1) =
      Inr (e'\<lparr>foreground_objects := foreground_objects e' @
               map (wrapped c e' si) (filter (\<lambda>obj. \<not> is_background obj) (drop (i + 1) objects)),
            background_objects := background_objects e' @
               map (wrapped c e' si) (filter is_background (drop (i + 1) objects))\<rparr>,
          calls2 @ concat (map (wrap_calls c e' si) (drop (i + 1) objects)))"
      using "1.IH"[OF inb trk_i obj_i body[symmetric] refl len rest] .
    show ?thesis
      unfolding step IH
      by (simp add: drop_i e'_def calls2_def t3_def)
  qed
qed

lemma SplitAndTransform_closed:
  "SplitAndTransformToTrackedObjects c e calls objects si =
     Inr (e\<lparr>foreground_objects := map (wrapped c e si) (filter (\<lambda>obj. \<not> is_background obj) objects),
            background_objects := map (wrapped c e si) (filter is_background objects)\<rparr>,
          calls @ Call_TrackedObjectPool_BatchGet (length objects) #
            concat (map (wrap_calls c e si) objects))"
proof -
  let ?trk = "BatchGet (TrackedObjectPool c) (length objects) []"
  have len: "length ?trk = length objects"
    by (simp add: BatchGet_def)
  have pool: "\<forall>j. 0 \<le> j \<and> j < length objects \<longrightarrow> ?trk ! j = TrackedObjectPool c"
    by (simp add: BatchGet_def)
  show ?thesis
    unfolding SplitAndTransformToTrackedObjects_def Let_def
    by (subst Split_loop_closed[OF len pool]) simp
qed

text \<open>
  C2. \<^verbatim>\<open>SplitAndTransformToTrackedObjects\<close> returns normally; the foreground partition
  holds one tracked object for each detection that is not background, the background
  partition one for each background detection, in the order of the detections, and the
  two sizes add up to the number of detections.
\<close>

theorem SplitAndTransform_partition:
  "\<exists>e' calls'. SplitAndTransformToTrackedObjects c e calls objects si = Inr (e', calls')
     \<and> foreground_objects e' = map (wrapped c e si) (filter (\<lambda>obj. \<not> is_background obj) objects)
     \<and> background_objects e' = map (wrapped c e si) (filter is_background objects)
     \<and> length (foreground_objects e') + length (background_objects e') = length objects"
proof -
  have "length (filter (\<lambda>obj. \<not> is_background obj) objects) + length (filter is_background objects)
      = length objects"
    using sum_length_filter_compl[of is_background objects] by simp
  then show ?thesis
    by (simp add: SplitAndTransform_closed)
qed

text \<open>
  C9. \<^verbatim>\<open>SplitAndTransformToTrackedObjects\<close> returns normally. The object placed in the
  foreground partition for a detection is the pool object attached to the detection and,
  exactly when \<^verbatim>\<open>use_histogram_for_match_\<close> is set, given the configured bin size and then
  passed through \<^verbatim>\<open>ComputeShapeFeatures\<close>; the object placed in the background partition
  is the attached object, with neither the bin size assigned nor the features computed.
  The calls made are, after the batch acquisition, for each detection in turn
  \<^verbatim>\<open>AttachObject\<close>, followed by \<^verbatim>\<open>ComputeShapeFeatures\<close> exactly when the detection is not
  background and the option is set, on the attached object with the bin size assigned.
\<close>

theorem SplitAndTransform_shape_features:
  "\<exists>e' calls'. SplitAndTransformToTrackedObjects c e calls objects si = Inr (e', calls')
     \<and> foreground_objects e' =
         map (\<lambda>obj.
           if use_histogram_for_match e
           then ComputeShapeFeatures c
                  ((AttachObject c (TrackedObjectPool c) obj (sensor_to_local_pose e)
                      (global_to_local_offset e) si)
                   \<lparr>histogram_bin_size := histogram_bin_size_member e\<rparr>)
           else AttachObject c (TrackedObjectPool c) obj (sensor_to_local_pose e)
                  (global_to_local_offset e) si)
           (filter (\<lambda>obj. \<not> is_background obj) objects)
     \<and> background_objects e' =
         map (\<lambda>obj. AttachObject c (TrackedObjectPool c) obj (sensor_to_local_pose e)
                      (global_to_local_offset e) si)
           (filter is_background objects)
     \<and> calls' = calls @ Call_TrackedObjectPool_BatchGet (length objects) #
         concat (map (\<lambda>obj.
           Call_AttachObject (TrackedObjectPool c) obj (sensor_to_local_pose e) (global_to_local_offset e) si #
           (if \<not> is_background obj \<and> use_histogram_for_match e
            then [Call_ComputeShapeFeatures
                    ((AttachObject c (TrackedObjectPool c) obj (sensor_to_local_pose e)
                        (global_to_local_offset e) si)
                     \<lparr>histogram_bin_size := histogram_bin_size_member e\<rparr>)]
            else [])) objects)"
proof -
  have fg: "map (wrapped c e si) (filter (\<lambda>obj. \<not> is_background obj) objects) =
         map (\<lambda>obj.
           if use_histogram_for_match e
           then ComputeShapeFeatures c
                  ((AttachObject c (TrackedObjectPool c) obj (sensor_to_local_pose e)
                      (global_to_local_offset e) si)
                   \<lparr>histogram_bin_size := histogram_bin_size_member e\<rparr>)
           else AttachObject c (TrackedObjectPool c) obj (sensor_to_local_pose e)
                  (global_to_local_offset e) si)
           (filter (\<lambda>obj. \<not> is_background obj) objects)"
    by (rule map_cong[OF refl])
       (simp add: wrapped_def wants_histogram_def with_bin_size_def attached_def)
  have bg: "map (wrapped c e si) (filter is_background objects) =
         map (\<lambda>obj. AttachObject c (TrackedObjectPool c) obj (sensor_to_local_pose e)
                      (global_to_local_offset e) si)
           (filter is_background objects)"
    by (rule map_cong[OF refl])
       (simp add: wrapped_def wants_histogram_def attached_def)
  have log: "wrap_calls c e si = (\<lambda>obj.
           Call_AttachObject (TrackedObjectPool c) obj (sensor_to_local_pose e) (global_to_local_offset e) si #
           (if \<not> is_background obj \<and> use_histogram_for_match e
            then [Call_ComputeShapeFeatures
                    ((AttachObject c (TrackedObjectPool c) obj (sensor_to_local_pose e)
                        (global_to_local_offset e) si)
                     \<lparr>histogram_bin_size := histogram_bin_size_member e\<rparr>)]
            else []))"
    by (rule ext) (simp add: wrap_calls_def wants_histogram_def with_bin_size_def attached_def)
  show ?thesis
    unfolding SplitAndTransform_closed fg bg log by simp
qed

subsection \<open>Association and cache update\<close>

lemma assign_loop_closed:
  "list_all (\<lambda>pair. fst pair < length tracks \<and> snd pair < length objects) assignments \<Longrightarrow>
   \<exists>calls'. assign_loop c objects assignments tracks calls =
     Inr (map (\<lambda>i. foldl (PushTrackedObjectToCache c) (tracks ! i) (assigned_to objects assignments i))
            [0..<length tracks], calls')"
proof (induction assignments arbitrary: tracks calls)
  case Nil
  then show ?case by (simp add: assigned_to_def map_nth)
next
  case (Cons pair rest)
  obtain t ob where pair: "pair = (t, ob)" by (cases pair)
  from Cons.prems pair have t: "t < length tracks" and ob: "ob < length objects"
    and rest: "list_all (\<lambda>pair. fst pair < length tracks \<and> snd pair < length objects) rest"
    by simp_all
  let ?tracks1 = "tracks[t := PushTrackedObjectToCache c (tracks ! t) (objects ! ob)]"
  have rest1: "list_all (\<lambda>pair. fst pair < length ?tracks1 \<and> snd pair < length objects) rest"
    using rest by simp
  from Cons.IH[OF rest1, of "calls @ [Call_PushTrackedObjectToCache (tracks ! t) (objects ! ob)]"]
  obtain calls' where run:
    "assign_loop c objects rest ?tracks1 (calls @ [Call_PushTrackedObjectToCache (tracks ! t) (objects ! ob)]) =
       Inr (map (\<lambda>i. foldl (PushTrackedObjectToCache c) (?tracks1 ! i) (assigned_to objects rest i))
              [0..<length ?tracks1], calls')"
    by blast
  have same: "map (\<lambda>i. foldl (PushTrackedObjectToCache c) (?tracks1 ! i) (assigned_to objects rest i))
                [0..<length ?tracks1]
            = map (\<lambda>i. foldl (PushTrackedObjectToCache c) (tracks ! i) (assigned_to objects (pair # rest) i))
                [0..<length tracks]"
    using t by (auto simp: pair assigned_to_def nth_list_update)
  show ?case
    using t ob run same by (simp add: pair vec_at_def vec_index_def)
qed

lemma create_loop_closed:
  "list_all (\<lambda>i. i < length objects) unassigned \<Longrightarrow>
   \<exists>calls'. create_loop c objects unassigned tracks calls =
     Inr (tracks @ map (\<lambda>i. InitializeTrack c (MlfTrackDataPool c) (objects ! i)) unassigned, calls')"
proof (induction unassigned arbitrary: tracks calls)
  case Nil
  then show ?case by simp
next
  case (Cons i rest)
  from Cons.prems have i: "i < length objects" and rest: "list_all (\<lambda>i. i < length objects) rest"
    by simp_all
  from Cons.IH[OF rest, of "tracks @ [InitializeTrack c (MlfTrackDataPool c) (objects ! i)]"
      "calls @ [Call_MlfTrackDataPool_Get, Call_InitializeTrack (MlfTrackDataPool c) (objects ! i)]"]
  show ?case
    using i by (simp add: vec_index_def Let_def)
qed

lemma TrackObjectMatchAndAssign_throws:
  assumes "Match c objects tracks = ((t, ob) # rest, unassigned_tracks, unassigned_objects)"
    and "\<not> t < length tracks"
  shows "TrackObjectMatchAndAssign c objects tracks calls = Inl out_of_range"
  using assms by (simp add: TrackObjectMatchAndAssign_def vec_at_def)

lemma TrackObjectMatchAndAssign_closed:
  assumes "in_range (Match c objects tracks) objects tracks"
  shows "\<exists>calls'. TrackObjectMatchAndAssign c objects tracks calls =
     Inr (map (\<lambda>i. foldl (PushTrackedObjectToCache c) (tracks ! i)
                 (assigned_to objects (fst (Match c objects tracks)) i)) [0..<length tracks]
          @ map (\<lambda>i. InitializeTrack c (MlfTrackDataPool c) (objects ! i))
              (snd (snd (Match c objects tracks))), calls')"
proof -
  obtain assignments unassigned_tracks unassigned_objects
    where m: "Match c objects tracks = (assignments, unassigned_tracks, unassigned_objects)"
    by (cases "Match c objects tracks")
  from assms m have a: "list_all (\<lambda>pair. fst pair < length tracks \<and> snd pair < length objects) assignments"
    and u: "list_all (\<lambda>i. i < length objects) unassigned_objects"
    by (simp_all add: in_range_def)
  from assign_loop_closed[OF a, of c "calls @ [Call_Match objects tracks]"]
  obtain calls1 where run1: "assign_loop c objects assignments tracks (calls @ [Call_Match objects tracks]) =
     Inr (map (\<lambda>i. foldl (PushTrackedObjectToCache c) (tracks ! i) (assigned_to objects assignments i))
            [0..<length tracks], calls1)"
    by blast
  from create_loop_closed[OF u, of c
      "map (\<lambda>i. foldl (PushTrackedObjectToCache c) (tracks ! i) (assigned_to objects assignments i))
            [0..<length tracks]" calls1]
  show ?thesis
    by (simp add: TrackObjectMatchAndAssign_def m run1)
qed

subsection \<open>Result collection\<close>

lemma ToObject_receivers_append [simp]:
  "ToObject_receivers (xs @ ys) = ToObject_receivers xs @ ToObject_receivers ys"
  by (induction xs rule: ToObject_receivers.induct) simp_all

lemma collect_closed:
  "pos + length (filter (\<lambda>t. \<not> skipped e t) tracks) \<le> length tracked \<Longrightarrow>
   \<exists>tracked' pos' calls'.
     collect c e ts tracks tracked pos num_predict calls =
       Inr (tracked', pos', num_predict + length (filter (skipped e) tracks), calls')
     \<and> length tracked' = length tracked
     \<and> pos \<le> pos' \<and> pos' \<le> pos + length (filter (\<lambda>t. \<not> skipped e t) tracks)
     \<and> ToObject_receivers calls' = ToObject_receivers calls @ filter (\<lambda>t. \<not> skipped e t) tracks"
proof (induction tracks arbitrary: tracked pos num_predict calls)
  case Nil
  then show ?case by simp
next
  case (Cons track rest)
  show ?case
  proof (cases "skipped e track")
    case True
    with Cons.prems have "pos + length (filter (\<lambda>t. \<not> skipped e t) rest) \<le> length tracked"
      by simp
    from Cons.IH[OF this, of "num_predict + 1" calls] True
    show ?thesis
      by (simp add: skipped_def)
  next
    case False
    with Cons.prems have room: "pos < length tracked"
      and rest: "pos + 1 + length (filter (\<lambda>t. \<not> skipped e t) rest) \<le> length tracked"
      by simp_all
    obtain ok obj' where to:
      "ToObject c track (vec_neg (global_to_local_offset e)) ts (tracked ! pos) = (ok, obj')"
      by (cases "ToObject c track (vec_neg (global_to_local_offset e)) ts (tracked ! pos)")
    let ?calls1 = "calls @ [Call_ToObject track (vec_neg (global_to_local_offset e)) ts (tracked ! pos)]"
    show ?thesis
    proof (cases ok)
      case True
      have "pos + 1 + length (filter (\<lambda>t. \<not> skipped e t) rest) \<le> length (tracked[pos := obj'])"
        using rest by simp
      from Cons.IH[OF this, of num_predict ?calls1] False True to room
      show ?thesis
        by (auto simp: skipped_def vec_index_def)
    next
      case failed: False
      have "pos + length (filter (\<lambda>t. \<not> skipped e t) rest) \<le> length (tracked[pos := obj'])"
        using rest by simp
      from Cons.IH[OF this, of num_predict ?calls1] False failed to room
      show ?thesis
        by (auto simp: skipped_def vec_index_def)
    qed
  qed
qed

lemma CollectTrackedResult_collect_closed:
  "\<exists>tracked pos calls'.
     CollectTrackedResult_collect c e frame calls =
       Inr (tracked, pos,
            length (filter (skipped e) (foreground_track_data e @ background_track_data e)), calls')
     \<and> length tracked = length (foreground_track_data e) + length (background_track_data e)
     \<and> pos \<le> length (filter (\<lambda>t. \<not> skipped e t) (foreground_track_data e @ background_track_data e))
     \<and> ToObject_receivers calls' =
         ToObject_receivers calls @
         filter (\<lambda>t. \<not> skipped e t) (foreground_track_data e @ background_track_data e)"
proof -
  let ?fg = "foreground_track_data e" and ?bg = "background_track_data e"
  let ?n = "length ?fg + length ?bg"
  let ?buf = "BatchGet (ObjectPool c) ?n []"
  let ?calls1 = "calls @ [Call_ObjectPool_BatchGet ?n]"
  have buf: "length ?buf = ?n"
    by (simp add: BatchGet_def)
  have fg_le: "length (filter (\<lambda>t. \<not> skipped e t) ?fg) \<le> length ?fg"
    and bg_le: "length (filter (\<lambda>t. \<not> skipped e t) ?bg) \<le> length ?bg"
    by simp_all
  have "0 + length (filter (\<lambda>t. \<not> skipped e t) ?fg) \<le> length ?buf"
    using buf fg_le by linarith
  from collect_closed[OF this, of c "timestamp frame" 0 ?calls1]
  obtain tracked1 pos1 calls2 where
    run1: "collect c e (timestamp frame) ?fg ?buf 0 0 ?calls1 =
       Inr (tracked1, pos1, length (filter (skipped e) ?fg), calls2)"
    and len1: "length tracked1 = length ?buf"
    and pos1: "pos1 \<le> length (filter (\<lambda>t. \<not> skipped e t) ?fg)"
    and rec1: "ToObject_receivers calls2 = ToObject_receivers ?calls1 @ filter (\<lambda>t. \<not> skipped e t) ?fg"
    by auto
  have "pos1 + length (filter (\<lambda>t. \<not> skipped e t) ?bg) \<le> length tracked1"
    using len1 buf pos1 fg_le bg_le by linarith
  from collect_closed[OF this, of c "timestamp frame" "length (filter (skipped e) ?fg)" calls2]
  obtain tracked2 pos2 calls3 where
    run2: "collect c e (timestamp frame) ?bg tracked1 pos1 (length (filter (skipped e) ?fg)) calls2 =
       Inr (tracked2, pos2, length (filter (skipped e) ?fg) + length (filter (skipped e) ?bg), calls3)"
    and len2: "length tracked2 = length tracked1"
    and pos2: "pos2 \<le> pos1 + length (filter (\<lambda>t. \<not> skipped e t) ?bg)"
    and rec2: "ToObject_receivers calls3 = ToObject_receivers calls2 @ filter (\<lambda>t. \<not> skipped e t) ?bg"
    by auto
  have "CollectTrackedResult_collect c e frame calls =
      Inr (tracked2, pos2, length (filter (skipped e) (?fg @ ?bg)), calls3)"
    by (simp add: CollectTrackedResult_collect_def Let_def run1 run2)
  moreover have "length tracked2 = ?n"
    using len2 len1 buf by simp
  moreover have "pos2 \<le> length (filter (\<lambda>t. \<not> skipped e t) (?fg @ ?bg))"
    using pos2 pos1 by simp
  moreover have "ToObject_receivers calls3 =
      ToObject_receivers calls @ filter (\<lambda>t. \<not> skipped e t) (?fg @ ?bg)"
    using rec2 rec1 by simp
  ultimately show ?thesis by blast
qed

lemma skipped_count_le:
  "length (filter (skipped e) tracks) \<le> length tracks"
  by simp

lemma CollectTrackedResult_closed:
  "\<exists>tracked calls'.
     CollectTrackedResult c e frame calls = Inr (frame\<lparr>tracked_objects := tracked\<rparr>, calls')
     \<and> length tracked = length (foreground_track_data e) + length (background_track_data e)
          - length (filter (skipped e) (foreground_track_data e @ background_track_data e))
     \<and> ToObject_receivers calls' =
         ToObject_receivers calls @
         filter (\<lambda>t. \<not> skipped e t) (foreground_track_data e @ background_track_data e)"
proof -
  let ?all = "foreground_track_data e @ background_track_data e"
  let ?n = "length (foreground_track_data e) + length (background_track_data e)"
  let ?k = "length (filter (skipped e) ?all)"
  from CollectTrackedResult_collect_closed[of c e frame calls]
  obtain tracked pos calls' where
    run: "CollectTrackedResult_collect c e frame calls = Inr (tracked, pos, ?k, calls')"
    and len: "length tracked = ?n"
    and rec: "ToObject_receivers calls' = ToObject_receivers calls @ filter (\<lambda>t. \<not> skipped e t) ?all"
    by blast
  have k: "?k \<le> ?n"
    using skipped_count_le[of e ?all] by simp
  have fin: "CollectTrackedResult_finish ?k ?n tracked = Inr (take (?n - ?k) tracked)"
    using k len by (simp add: CollectTrackedResult_finish_def resize_def)
  have "CollectTrackedResult c e frame calls = Inr (frame\<lparr>tracked_objects := take (?n - ?k) tracked\<rparr>, calls')"
    using run fin by (simp add: CollectTrackedResult_def)
  moreover have "length (take (?n - ?k) tracked) = ?n - ?k"
    using len by simp
  ultimately show ?thesis
    using rec by blast
qed

text \<open>
  C4. With \<^verbatim>\<open>output_predict_objects_\<close> false, \<^verbatim>\<open>CollectTrackedResult\<close> returns normally, the
  published sequence has as many entries as there are tracks in the two partitions minus
  the tracks flagged predicted, and \<^verbatim>\<open>ToObject\<close> is called for exactly the tracks that are
  not flagged, in ledger order.
\<close>

theorem CollectTrackedResult_predicted_suppressed:
  assumes "\<not> output_predict_objects e"
  shows "\<exists>frame' calls'.
     CollectTrackedResult c e frame calls = Inr (frame', calls')
     \<and> length (tracked_objects frame') =
         length (foreground_track_data e) + length (background_track_data e)
          - length (filter is_current_state_predicted (foreground_track_data e @ background_track_data e))
     \<and> ToObject_receivers calls' =
         ToObject_receivers calls @
         filter (\<lambda>t. \<not> is_current_state_predicted t) (foreground_track_data e @ background_track_data e)"
proof -
  have sk: "skipped e = is_current_state_predicted"
    using assms by (intro ext) (simp add: skipped_def)
  from CollectTrackedResult_closed[of c e frame calls]
  show ?thesis
    unfolding sk by force
qed

theorem CollectTrackedResult_predicted_suppressed_witness:
  "\<not> output_predict_objects scene_engine_tracked
   \<and> (\<exists>frame' calls'.
        CollectTrackedResult stub_collaborators scene_engine_tracked scene_frame [] = Inr (frame', calls')
        \<and> length (tracked_objects frame') = 1
        \<and> ToObject_receivers calls' = [stub_track\<lparr>latest_visible_time := 1\<rparr>])"
proof -
  have h: "\<not> output_predict_objects scene_engine_tracked"
    by (simp add: scene_engine_tracked_def scene_engine_def)
  from CollectTrackedResult_predicted_suppressed[OF h, of stub_collaborators scene_frame "[]"]
  show ?thesis
    using h by (simp add: scene_engine_tracked_def stub_track_def)
qed

text \<open>
  C10. After the two \<^verbatim>\<open>collect\<close> passes, which return normally, \<^verbatim>\<open>num_predict\<close> is the number
  of tracks that are flagged predicted while predicted output is off, each counted once;
  it is at most \<^verbatim>\<open>num_objects\<close>, so the final step does not take the error branch and
  shrinks the buffer to \<^verbatim>\<open>num_objects - num_predict\<close> entries without padding.
\<close>

theorem CollectTrackedResult_num_predict_bounded:
  "\<exists>tracked pos num_predict calls'.
     CollectTrackedResult_collect c e frame calls = Inr (tracked, pos, num_predict, calls')
     \<and> num_predict = length (filter (\<lambda>t. \<not> output_predict_objects e \<and> is_current_state_predicted t)
                          (foreground_track_data e @ background_track_data e))
     \<and> num_predict \<le> length (foreground_track_data e) + length (background_track_data e)
     \<and> \<not> num_predict > length (foreground_track_data e) + length (background_track_data e)
     \<and> pos + num_predict \<le> length (foreground_track_data e) + length (background_track_data e)
     \<and> CollectTrackedResult_finish num_predict
          (length (foreground_track_data e) + length (background_track_data e)) tracked =
        Inr (take (length (foreground_track_data e) + length (background_track_data e) - num_predict)
               tracked)"
proof -
  let ?all = "foreground_track_data e @ background_track_data e"
  let ?n = "length (foreground_track_data e) + length (background_track_data e)"
  let ?k = "length (filter (skipped e) ?all)"
  from CollectTrackedResult_collect_closed[of c e frame calls]
  obtain tracked pos calls' where
    run: "CollectTrackedResult_collect c e frame calls = Inr (tracked, pos, ?k, calls')"
    and len: "length tracked = ?n"
    and pos: "pos \<le> length (filter (\<lambda>t. \<not> skipped e t) ?all)"
    by blast
  have sk: "skipped e = (\<lambda>t. \<not> output_predict_objects e \<and> is_current_state_predicted t)"
    by (intro ext) (simp add: skipped_def)
  have split: "length (filter (skipped e) ?all) + length (filter (\<lambda>t. \<not> skipped e t) ?all) = ?n"
    using sum_length_filter_compl[of "skipped e" ?all] by simp
  have k: "?k \<le> ?n"
    using split by linarith
  have pk: "pos + ?k \<le> ?n"
    using split pos by linarith
  have fin: "CollectTrackedResult_finish ?k ?n tracked = Inr (take (?n - ?k) tracked)"
    using k len by (simp add: CollectTrackedResult_finish_def resize_def)
  show ?thesis
    using run k pk fin unfolding sk by (intro exI[of _ tracked] exI[of _ pos] exI[of _ calls'] exI) auto
qed

subsection \<open>The frame pipeline\<close>

lemma harmonized_fields [simp]:
  "timestamp (harmonized e frame) = timestamp frame"
  "sensor_info (harmonized e frame) = sensor_info frame"
  "lidar2world_pose (harmonized e frame) = lidar2world_pose frame"
  "tracked_objects (harmonized e frame) = tracked_objects frame"
  "hdmap_struct (harmonized e frame) = hdmap_struct frame"
  by (simp_all add: harmonized_def)

lemma wrap_calls_not_filter_or_collect:
  "filter filter_or_collect (concat (map (wrap_calls c e si) objects)) = []"
  by (induction objects) (simp_all add: wrap_calls_def)

lemma assign_loop_calls:
  "assign_loop c objects assignments tracks calls = Inr (tracks', calls') \<Longrightarrow>
   filter filter_or_collect calls' = filter filter_or_collect calls"
proof (induction assignments arbitrary: tracks calls)
  case Nil
  then show ?case by simp
next
  case (Cons pair rest)
  obtain t ob where pair: "pair = (t, ob)" by (cases pair)
  from Cons.prems pair have
    "assign_loop c objects rest (tracks[t := PushTrackedObjectToCache c (tracks ! t) (objects ! ob)])
       (calls @ [Call_PushTrackedObjectToCache (tracks ! t) (objects ! ob)]) = Inr (tracks', calls')"
    by (simp add: vec_at_def vec_index_def split: if_splits)
  from Cons.IH[OF this] show ?case by simp
qed

lemma create_loop_calls:
  "create_loop c objects unassigned tracks calls = Inr (tracks', calls') \<Longrightarrow>
   filter filter_or_collect calls' = filter filter_or_collect calls"
proof (induction unassigned arbitrary: tracks calls)
  case Nil
  then show ?case by simp
next
  case (Cons i rest)
  from Cons.prems have
    "create_loop c objects rest (tracks @ [InitializeTrack c (MlfTrackDataPool c) (objects ! i)])
       (calls @ [Call_MlfTrackDataPool_Get, Call_InitializeTrack (MlfTrackDataPool c) (objects ! i)]) =
     Inr (tracks', calls')"
    by (simp add: vec_index_def Let_def split: if_splits)
  from Cons.IH[OF this] show ?case by simp
qed

lemma TrackObjectMatchAndAssign_calls:
  assumes "TrackObjectMatchAndAssign c objects tracks calls = Inr (tracks', calls')"
  shows "filter filter_or_collect calls' = filter filter_or_collect calls"
proof -
  obtain assignments unassigned_tracks unassigned_objects
    where m: "Match c objects tracks = (assignments, unassigned_tracks, unassigned_objects)"
    by (cases "Match c objects tracks")
  from assms m obtain tracks1 calls1 where
    a: "assign_loop c objects assignments tracks (calls @ [Call_Match objects tracks]) = Inr (tracks1, calls1)"
    and b: "create_loop c objects unassigned_objects tracks1 calls1 = Inr (tracks', calls')"
    by (auto simp: TrackObjectMatchAndAssign_def split: sum.splits)
  from assign_loop_calls[OF a] create_loop_calls[OF b] show ?thesis by simp
qed

lemma Track_associate_closed:
  assumes "matcher_in_range c"
  shows "\<exists>e1 calls1.
     Track_associate c e frame calls = Inr (e1, harmonized e frame, calls1)
     \<and> global_to_local_offset e1 =
         (if foreground_track_data e = [] \<and> background_track_data e = []
          then vec_neg (translation (lidar2world_pose frame))
          else global_to_local_offset e)
     \<and> set_static_outside_hdmap e1 = set_static_outside_hdmap e
     \<and> filter filter_or_collect calls1 = filter filter_or_collect calls"
proof -
  define frame0 where "frame0 = harmonized e frame"
  define e1 where "e1 = (if foreground_track_data e = [] \<and> background_track_data e = []
                then e\<lparr>global_to_local_offset := vec_neg (translation (lidar2world_pose frame0))\<rparr>
                else e)"
  define e2 where "e2 = e1\<lparr>sensor_to_local_pose := lidar2world_pose frame0\<rparr>"
  define e3 where "e3 = e2\<lparr>sensor_to_local_pose :=
                    pretranslate (double_add c) (global_to_local_offset e2) (sensor_to_local_pose e2)\<rparr>"
  define objects where "objects = segmented_objects frame0"
  define si where "si = sensor_info frame0"
  define e4 where "e4 = e3\<lparr>foreground_objects :=
                  map (wrapped c e3 si) (filter (\<lambda>obj. \<not> is_background obj) objects),
                background_objects := map (wrapped c e3 si) (filter is_background objects)\<rparr>"
  define calls4 where "calls4 = calls @ Call_TrackedObjectPool_BatchGet (length objects) #
            concat (map (wrap_calls c e3 si) objects)"
  have split: "SplitAndTransformToTrackedObjects c e3 calls objects si = Inr (e4, calls4)"
    by (simp add: SplitAndTransform_closed e4_def calls4_def)
  have calls4: "filter filter_or_collect calls4 = filter filter_or_collect calls"
    by (simp add: calls4_def wrap_calls_not_filter_or_collect)
  from assms have r1: "in_range (Match c (foreground_objects e4) (foreground_track_data e4))
      (foreground_objects e4) (foreground_track_data e4)"
    by (simp add: matcher_in_range_def)
  from TrackObjectMatchAndAssign_closed[OF r1, of calls4]
  obtain fg calls5 where
    fg: "TrackObjectMatchAndAssign c (foreground_objects e4) (foreground_track_data e4) calls4 =
      Inr (fg, calls5)"
    by blast
  from assms have r2: "in_range (Match c (background_objects e4) (background_track_data e4))
      (background_objects e4) (background_track_data e4)"
    by (simp add: matcher_in_range_def)
  from TrackObjectMatchAndAssign_closed[OF r2, of calls5]
  obtain bg calls6 where
    bg: "TrackObjectMatchAndAssign c (background_objects e4) (background_track_data e4) calls5 =
      Inr (bg, calls6)"
    by blast
  have run: "Track_associate c e frame calls =
      Inr (e4\<lparr>foreground_track_data := fg, background_track_data := bg\<rparr>, frame0, calls6)"
    using split fg bg
    unfolding Track_associate_def Let_def harmonized_def[symmetric] frame0_def[symmetric]
      e1_def[symmetric] e2_def[symmetric] e3_def[symmetric] objects_def[symmetric] si_def[symmetric]
    by simp
  have off: "global_to_local_offset (e4\<lparr>foreground_track_data := fg, background_track_data := bg\<rparr>) =
         (if foreground_track_data e = [] \<and> background_track_data e = []
          then vec_neg (translation (lidar2world_pose frame))
          else global_to_local_offset e)"
    by (simp add: e4_def e3_def e2_def e1_def frame0_def)
  have cfg: "set_static_outside_hdmap (e4\<lparr>foreground_track_data := fg, background_track_data := bg\<rparr>)
      = set_static_outside_hdmap e"
    by (simp add: e4_def e3_def e2_def e1_def)
  have log: "filter filter_or_collect calls6 = filter filter_or_collect calls"
    using TrackObjectMatchAndAssign_calls[OF fg] TrackObjectMatchAndAssign_calls[OF bg] calls4
    by simp
  show ?thesis
    using run off cfg log unfolding frame0_def by blast
qed

lemma Track_publish_non_main:
  assumes "\<not> IsMainSensor c (name (sensor_info frame))"
  shows "Track_publish c e frame calls =
     Inr (e\<lparr>foreground_track_data :=
              filter (\<lambda>track. double_ge c (double_add c (latest_visible_time track) (reserved_invisible_time e)) (timestamp frame))
                (foreground_track_data e),
            background_track_data :=
              filter (\<lambda>track. double_ge c (double_add c (latest_visible_time track) (reserved_invisible_time e)) (timestamp frame))
                (background_track_data e)\<rparr>,
          frame\<lparr>tracked_objects := []\<rparr>,
          calls @ [Call_IsMainSensor (name (sensor_info frame))])"
  using assms by (simp add: Track_publish_def Let_def RemoveStaleTrackData_closed)

lemma Track_publish_closed:
  "\<exists>e2 tracked calls2.
     Track_publish c e frame calls = Inr (e2, frame\<lparr>tracked_objects := tracked\<rparr>, calls2)
     \<and> global_to_local_offset e2 = global_to_local_offset e
     \<and> set_static_outside_hdmap e2 = set_static_outside_hdmap e"
proof (cases "IsMainSensor c (name (sensor_info frame))")
  case False
  let ?keep = "\<lambda>track. double_ge c (double_add c (latest_visible_time track) (reserved_invisible_time e)) (timestamp frame)"
  let ?e3 = "e\<lparr>foreground_track_data := filter ?keep (foreground_track_data e),
               background_track_data := filter ?keep (background_track_data e)\<rparr>"
  have "Track_publish c e frame calls =
      Inr (?e3, frame\<lparr>tracked_objects := []\<rparr>, calls @ [Call_IsMainSensor (name (sensor_info frame))])"
    using False by (rule Track_publish_non_main)
  moreover have "global_to_local_offset ?e3 = global_to_local_offset e"
    by simp
  moreover have "set_static_outside_hdmap ?e3 = set_static_outside_hdmap e"
    by simp
  ultimately show ?thesis
    by blast
next
  case True
  obtain fg calls2 where fg:
    "TrackStateFilter c (foreground_track_data e) (timestamp frame)
       (calls @ [Call_IsMainSensor (name (sensor_info frame))]) = (fg, calls2)"
    by (cases "TrackStateFilter c (foreground_track_data e) (timestamp frame)
       (calls @ [Call_IsMainSensor (name (sensor_info frame))])")
  obtain bg calls3 where bg:
    "TrackStateFilter c (background_track_data e) (timestamp frame) calls2 = (bg, calls3)"
    by (cases "TrackStateFilter c (background_track_data e) (timestamp frame) calls2")
  let ?e2 = "e\<lparr>foreground_track_data := fg, background_track_data := bg\<rparr>"
  from CollectTrackedResult_closed[of c ?e2 "frame\<lparr>tracked_objects := []\<rparr>" calls3]
  obtain tracked calls4 where col:
    "CollectTrackedResult c ?e2 (frame\<lparr>tracked_objects := []\<rparr>) calls3 =
       Inr (frame\<lparr>tracked_objects := tracked\<rparr>, calls4)"
    by auto
  let ?keep = "\<lambda>track. double_ge c (double_add c (latest_visible_time track) (reserved_invisible_time e)) (timestamp frame)"
  let ?e3 = "?e2\<lparr>foreground_track_data := filter ?keep fg, background_track_data := filter ?keep bg\<rparr>"
  have "Track_publish c e frame calls = Inr (?e3, frame\<lparr>tracked_objects := tracked\<rparr>, calls4)"
    using True fg bg col
    by (simp add: Track_publish_def Let_def RemoveStaleTrackData_closed)
  moreover have "global_to_local_offset ?e3 = global_to_local_offset e"
    by simp
  moreover have "set_static_outside_hdmap ?e3 = set_static_outside_hdmap e"
    by simp
  ultimately show ?thesis
    by blast
qed

lemma set_static_loop_closed:
  "set_static_loop c roi objs calls =
     (map (\<lambda>obj. if IsObjectInRoi c roi obj then obj
                  else obj\<lparr>velocity := Vector3_Zero, acceleration := Vector3_Zero\<rparr>) objs,
      calls @ map (Call_IsObjectInRoi roi) objs)"
  by (induction objs arbitrary: calls) (simp_all add: Let_def)

lemma stub_matcher_in_range: "matcher_in_range stub_collaborators"
  by (simp add: matcher_in_range_def in_range_def stub_collaborators_def list_all_iff)

text \<open>
  C1. With a matcher whose indices are in range, \<^verbatim>\<open>Track\<close> returns true, and the session
  offset afterwards is the negated translation of the frame's pose if both track vectors
  were empty at the start of the call, and the offset it had before otherwise.
\<close>

theorem Track_offset_fixation:
  assumes "matcher_in_range c"
  shows "\<exists>e' frame' calls'.
     Track c e frame calls = Inr (True, e', frame', calls')
     \<and> global_to_local_offset e' =
         (if foreground_track_data e = [] \<and> background_track_data e = []
          then vec_neg (translation (lidar2world_pose frame))
          else global_to_local_offset e)"
proof -
  from Track_associate_closed[OF assms, of e frame calls]
  obtain e1 calls1 where
    a: "Track_associate c e frame calls = Inr (e1, harmonized e frame, calls1)"
    and off: "global_to_local_offset e1 =
         (if foreground_track_data e = [] \<and> background_track_data e = []
          then vec_neg (translation (lidar2world_pose frame))
          else global_to_local_offset e)"
    by blast
  from Track_publish_closed[of c e1 "harmonized e frame" calls1]
  obtain e2 tracked calls2 where
    p: "Track_publish c e1 (harmonized e frame) calls1 =
          Inr (e2, (harmonized e frame)\<lparr>tracked_objects := tracked\<rparr>, calls2)"
    and off2: "global_to_local_offset e2 = global_to_local_offset e1"
    by blast
  obtain frame3 calls3 where
    s: "Track_set_static c e2 ((harmonized e frame)\<lparr>tracked_objects := tracked\<rparr>) calls2 = (frame3, calls3)"
    by (cases "Track_set_static c e2 ((harmonized e frame)\<lparr>tracked_objects := tracked\<rparr>) calls2")
  have "Track c e frame calls = Inr (True, e2, frame3, calls3)"
    by (simp add: Track_def Track_before_policy_def a p s)
  then show ?thesis
    using off off2 by simp
qed

theorem Track_offset_fixation_witness:
  "matcher_in_range stub_collaborators
   \<and> (\<exists>e' frame' calls'.
        Track stub_collaborators scene_engine scene_frame [] = Inr (True, e', frame', calls')
        \<and> global_to_local_offset e' = (- 100, - 200, - 3))"
proof -
  have "foreground_track_data scene_engine = [] \<and> background_track_data scene_engine = []"
    by (simp add: scene_engine_def)
  moreover have "vec_neg (translation (lidar2world_pose scene_frame)) = (- 100, - 200, - 3)"
    by (simp add: scene_frame_def)
  ultimately show ?thesis
    using stub_matcher_in_range
      Track_offset_fixation[OF stub_matcher_in_range, of scene_engine scene_frame "[]"]
    by simp
qed

lemma Track_set_static_nothing_published:
  "tracked_objects frame = [] \<Longrightarrow> Track_set_static c e frame calls = (frame, calls)"
  by (cases "hdmap_struct frame") (simp_all add: Track_set_static_def)

lemma Track_set_static_closed:
  "\<exists>calls'. Track_set_static c e frame calls =
     (frame\<lparr>tracked_objects :=
        (case hdmap_struct frame of
           None \<Rightarrow> tracked_objects frame
         | Some roi \<Rightarrow>
             if set_static_outside_hdmap e \<and>
                \<not> (road_polygons roi = [] \<and> junction_polygons roi = [] \<and> road_boundary roi = [])
             then map (\<lambda>obj. if IsObjectInRoi c roi obj then obj
                             else obj\<lparr>velocity := Vector3_Zero, acceleration := Vector3_Zero\<rparr>)
                    (tracked_objects frame)
             else tracked_objects frame)\<rparr>, calls')"
  by (cases "hdmap_struct frame") (auto simp: Track_set_static_def set_static_loop_closed)

text \<open>
  C5. On a frame whose sensor is not the main sensor (and with a matcher whose indices are
  in range), \<^verbatim>\<open>Track\<close> returns true; beyond the association steps it only asks the sensor
  manager: the log gains no filtering or collection call, the tracks are those left by
  the association, caches included, minus the stale ones, and the published sequence is
  empty.
\<close>

theorem Track_non_main_sensor:
  assumes "matcher_in_range c" and "\<not> IsMainSensor c (name (sensor_info frame))"
  shows "\<exists>e1 frame1 calls1.
     Track_associate c e frame calls = Inr (e1, frame1, calls1)
     \<and> Track c e frame calls =
         Inr (True,
              e1\<lparr>foreground_track_data :=
                   filter (\<lambda>track. double_ge c (double_add c (latest_visible_time track) (reserved_invisible_time e1)) (timestamp frame))
                     (foreground_track_data e1),
                 background_track_data :=
                   filter (\<lambda>track. double_ge c (double_add c (latest_visible_time track) (reserved_invisible_time e1)) (timestamp frame))
                     (background_track_data e1)\<rparr>,
              frame1\<lparr>tracked_objects := []\<rparr>,
              calls1 @ [Call_IsMainSensor (name (sensor_info frame))])
     \<and> filter filter_or_collect (calls1 @ [Call_IsMainSensor (name (sensor_info frame))]) =
         filter filter_or_collect calls"
proof -
  from Track_associate_closed[OF assms(1), of e frame calls]
  obtain e1 calls1 where
    a: "Track_associate c e frame calls = Inr (e1, harmonized e frame, calls1)"
    and log: "filter filter_or_collect calls1 = filter filter_or_collect calls"
    by blast
  have nm: "\<not> IsMainSensor c (name (sensor_info (harmonized e frame)))"
    using assms(2) by simp
  have "Track c e frame calls =
         Inr (True,
              e1\<lparr>foreground_track_data :=
                   filter (\<lambda>track. double_ge c (double_add c (latest_visible_time track) (reserved_invisible_time e1)) (timestamp frame))
                     (foreground_track_data e1),
                 background_track_data :=
                   filter (\<lambda>track. double_ge c (double_add c (latest_visible_time track) (reserved_invisible_time e1)) (timestamp frame))
                     (background_track_data e1)\<rparr>,
              (harmonized e frame)\<lparr>tracked_objects := []\<rparr>,
              calls1 @ [Call_IsMainSensor (name (sensor_info frame))])"
    by (simp add: Track_def Track_before_policy_def a Track_publish_non_main[OF nm]
          Track_set_static_nothing_published)
  moreover have "filter filter_or_collect (calls1 @ [Call_IsMainSensor (name (sensor_info frame))]) =
         filter filter_or_collect calls"
    using log by simp
  ultimately show ?thesis
    using a by blast
qed

theorem Track_non_main_sensor_witness:
  "matcher_in_range stub_collaborators
   \<and> \<not> IsMainSensor stub_collaborators (name (sensor_info scene_frame))
   \<and> (\<exists>e1 frame1 calls1 e'.
        Track_associate stub_collaborators scene_engine scene_frame [] = Inr (e1, frame1, calls1)
        \<and> Track stub_collaborators scene_engine scene_frame [] =
            Inr (True, e', frame1\<lparr>tracked_objects := []\<rparr>, calls1 @ [Call_IsMainSensor ''velodyne16_front''])
        \<and> filter filter_or_collect (calls1 @ [Call_IsMainSensor ''velodyne16_front'']) = [])"
proof -
  have nm: "\<not> IsMainSensor stub_collaborators (name (sensor_info scene_frame))"
    by (simp add: stub_collaborators_def scene_frame_def)
  have n: "name (sensor_info scene_frame) = ''velodyne16_front''"
    by (simp add: scene_frame_def)
  from Track_non_main_sensor[OF stub_matcher_in_range nm, of scene_engine "[]"]
  show ?thesis
    using stub_matcher_in_range nm unfolding n by auto
qed

text \<open>
  C6. With a matcher whose indices are in range, \<^verbatim>\<open>Track\<close> returns true. If the policy is
  enabled and the frame has a road structure with a road polygon, a junction polygon or
  a boundary element, each published object for which \<^verbatim>\<open>IsObjectInRoi\<close> is false has its
  velocity and acceleration set to zero and every other published object is as the
  earlier steps left it; if the policy is disabled, or the structure is null or has none
  of the three, the published objects are as the earlier steps left them.
\<close>

theorem Track_static_outside_hdmap:
  assumes "matcher_in_range c"
  shows "\<exists>e2 frame2 calls2 calls3.
     Track_before_policy c e frame calls = Inr (e2, frame2, calls2)
     \<and> Track c e frame calls =
         Inr (True, e2,
              frame2\<lparr>tracked_objects :=
                (case hdmap_struct frame of
                   None \<Rightarrow> tracked_objects frame2
                 | Some roi \<Rightarrow>
                     if set_static_outside_hdmap e \<and>
                        \<not> (road_polygons roi = [] \<and> junction_polygons roi = [] \<and> road_boundary roi = [])
                     then map (\<lambda>obj. if IsObjectInRoi c roi obj then obj
                                     else obj\<lparr>velocity := Vector3_Zero, acceleration := Vector3_Zero\<rparr>)
                            (tracked_objects frame2)
                     else tracked_objects frame2)\<rparr>,
              calls3)"
proof -
  from Track_associate_closed[OF assms, of e frame calls]
  obtain e1 calls1 where
    a: "Track_associate c e frame calls = Inr (e1, harmonized e frame, calls1)"
    and cfg1: "set_static_outside_hdmap e1 = set_static_outside_hdmap e"
    by blast
  from Track_publish_closed[of c e1 "harmonized e frame" calls1]
  obtain e2 tracked calls2 where
    p: "Track_publish c e1 (harmonized e frame) calls1 =
          Inr (e2, (harmonized e frame)\<lparr>tracked_objects := tracked\<rparr>, calls2)"
    and cfg2: "set_static_outside_hdmap e2 = set_static_outside_hdmap e1"
    by blast
  let ?frame2 = "(harmonized e frame)\<lparr>tracked_objects := tracked\<rparr>"
  have b: "Track_before_policy c e frame calls = Inr (e2, ?frame2, calls2)"
    by (simp add: Track_before_policy_def a p)
  have hd: "hdmap_struct ?frame2 = hdmap_struct frame"
    by simp
  from Track_set_static_closed[of c e2 ?frame2 calls2]
  obtain calls3 where s: "Track_set_static c e2 ?frame2 calls2 =
     (?frame2\<lparr>tracked_objects :=
        (case hdmap_struct frame of
           None \<Rightarrow> tracked_objects ?frame2
         | Some roi \<Rightarrow>
             if set_static_outside_hdmap e \<and>
                \<not> (road_polygons roi = [] \<and> junction_polygons roi = [] \<and> road_boundary roi = [])
             then map (\<lambda>obj. if IsObjectInRoi c roi obj then obj
                             else obj\<lparr>velocity := Vector3_Zero, acceleration := Vector3_Zero\<rparr>)
                    (tracked_objects ?frame2)
             else tracked_objects ?frame2)\<rparr>, calls3)"
    unfolding hd cfg2 cfg1 by blast
  have "Track c e frame calls = Inr (True, e2,
     ?frame2\<lparr>tracked_objects :=
        (case hdmap_struct frame of
           None \<Rightarrow> tracked_objects ?frame2
         | Some roi \<Rightarrow>
             if set_static_outside_hdmap e \<and>
                \<not> (road_polygons roi = [] \<and> junction_polygons roi = [] \<and> road_boundary roi = [])
             then map (\<lambda>obj. if IsObjectInRoi c roi obj then obj
                             else obj\<lparr>velocity := Vector3_Zero, acceleration := Vector3_Zero\<rparr>)
                    (tracked_objects ?frame2)
             else tracked_objects ?frame2)\<rparr>, calls3)"
    unfolding Track_def b using s by simp
  with b show ?thesis
    by blast
qed

lemma Track_before_policy_first_frame:
  "(case Track_before_policy stub_collaborators scene_engine scene_frame_main [] of
      Inl err \<Rightarrow> False
    | Inr (e2, frame2, calls2) \<Rightarrow>
        map track_id (tracked_objects frame2) = [0, 1, 2]
        \<and> map velocity (tracked_objects frame2) = [(1, 0, 0), (1, 0, 0), (1, 0, 0)])"
  by code_simp

theorem Track_static_outside_hdmap_witness:
  "matcher_in_range stub_collaborators
   \<and> (\<exists>e2 frame2 calls2 calls3.
        Track_before_policy stub_collaborators scene_engine scene_frame_main [] = Inr (e2, frame2, calls2)
        \<and> map track_id (tracked_objects frame2) = [0, 1, 2]
        \<and> map velocity (tracked_objects frame2) = [(1, 0, 0), (1, 0, 0), (1, 0, 0)]
        \<and> Track stub_collaborators scene_engine scene_frame_main [] =
            Inr (True, e2,
                 frame2\<lparr>tracked_objects :=
                   map (\<lambda>obj. if track_id obj = 0 then obj
                               else obj\<lparr>velocity := Vector3_Zero, acceleration := Vector3_Zero\<rparr>)
                     (tracked_objects frame2)\<rparr>,
                 calls3))"
proof -
  have hd: "hdmap_struct scene_frame_main =
      Some \<lparr>road_polygons = [[(0, 0, 0), (1, 0, 0), (1, 1, 0)]], junction_polygons = [], road_boundary = []\<rparr>"
    by (simp add: scene_frame_main_def scene_frame_def)
  have cfg: "set_static_outside_hdmap scene_engine"
    by (simp add: scene_engine_def)
  have roi: "IsObjectInRoi stub_collaborators = (\<lambda>roi obj. track_id obj = 0)"
    by (simp add: stub_collaborators_def)
  from Track_static_outside_hdmap[OF stub_matcher_in_range, of scene_engine scene_frame_main "[]"]
  obtain e2 frame2 calls2 calls3 where
    before: "Track_before_policy stub_collaborators scene_engine scene_frame_main [] = Inr (e2, frame2, calls2)"
    and after: "Track stub_collaborators scene_engine scene_frame_main [] =
            Inr (True, e2,
                 frame2\<lparr>tracked_objects :=
                   map (\<lambda>obj. if track_id obj = 0 then obj
                               else obj\<lparr>velocity := Vector3_Zero, acceleration := Vector3_Zero\<rparr>)
                     (tracked_objects frame2)\<rparr>,
                 calls3)"
    unfolding hd roi by (auto simp: cfg)
  from Track_before_policy_first_frame before
  have ids: "map track_id (tracked_objects frame2) = [0, 1, 2]"
    and vels: "map velocity (tracked_objects frame2) = [(1, 0, 0), (1, 0, 0), (1, 0, 0)]"
    by simp_all
  show ?thesis
  proof (intro conjI exI)
    show "matcher_in_range stub_collaborators"
      by (rule stub_matcher_in_range)
    show "Track_before_policy stub_collaborators scene_engine scene_frame_main [] = Inr (e2, frame2, calls2)"
      by (rule before)
    show "map track_id (tracked_objects frame2) = [0, 1, 2]"
      by (rule ids)
    show "map velocity (tracked_objects frame2) = [(1, 0, 0), (1, 0, 0), (1, 0, 0)]"
      by (rule vels)
    show "Track stub_collaborators scene_engine scene_frame_main [] =
            Inr (True, e2,
                 frame2\<lparr>tracked_objects :=
                   map (\<lambda>obj. if track_id obj = 0 then obj
                               else obj\<lparr>velocity := Vector3_Zero, acceleration := Vector3_Zero\<rparr>)
                     (tracked_objects frame2)\<rparr>,
                 calls3)"
      by (rule after)
  qed
qed

text \<open>
  C7. When the indices returned by the matcher are in range, \<^verbatim>\<open>TrackObjectMatchAndAssign\<close>
  returns normally; the vector of tracks grows by the number of unassigned objects; each
  position that existed before holds the track it held, with the objects assigned to
  that index pushed to its cache in the order of the assignments; the new positions hold,
  in the order of the unassigned objects, a track from the pool initialised with that
  object.
\<close>

theorem TrackObjectMatchAndAssign_ledger:
  assumes "in_range (Match c objects tracks) objects tracks"
  shows "\<exists>tracks' calls'.
     TrackObjectMatchAndAssign c objects tracks calls = Inr (tracks', calls')
     \<and> length tracks' = length tracks + length (snd (snd (Match c objects tracks)))
     \<and> take (length tracks) tracks' =
         map (\<lambda>i. foldl (PushTrackedObjectToCache c) (tracks ! i)
                    (map (\<lambda>pair. objects ! snd pair)
                       (filter (\<lambda>pair. fst pair = i) (fst (Match c objects tracks)))))
           [0..<length tracks]
     \<and> drop (length tracks) tracks' =
         map (\<lambda>i. InitializeTrack c (MlfTrackDataPool c) (objects ! i))
           (snd (snd (Match c objects tracks)))"
proof -
  from TrackObjectMatchAndAssign_closed[OF assms, of calls]
  obtain calls' where run: "TrackObjectMatchAndAssign c objects tracks calls =
     Inr (map (\<lambda>i. foldl (PushTrackedObjectToCache c) (tracks ! i)
                 (assigned_to objects (fst (Match c objects tracks)) i)) [0..<length tracks]
          @ map (\<lambda>i. InitializeTrack c (MlfTrackDataPool c) (objects ! i))
              (snd (snd (Match c objects tracks))), calls')"
    by blast
  show ?thesis
    unfolding run by (simp add: assigned_to_def)
qed

theorem TrackObjectMatchAndAssign_ledger_witness:
  "in_range (Match stub_collaborators
       [stub_tracked_object, stub_tracked_object\<lparr>histogram_bin_size := 7\<rparr>] [stub_track])
     [stub_tracked_object, stub_tracked_object\<lparr>histogram_bin_size := 7\<rparr>] [stub_track]
   \<and> (\<exists>tracks' calls'.
        TrackObjectMatchAndAssign stub_collaborators
          [stub_tracked_object, stub_tracked_object\<lparr>histogram_bin_size := 7\<rparr>] [stub_track] [] =
        Inr (tracks', calls')
        \<and> length tracks' = 2
        \<and> take 1 tracks' = [stub_track\<lparr>cached_objects := [stub_tracked_object]\<rparr>]
        \<and> drop 1 tracks' =
            [InitializeTrack stub_collaborators stub_track (stub_tracked_object\<lparr>histogram_bin_size := 7\<rparr>)])"
proof -
  let ?objects = "[stub_tracked_object, stub_tracked_object\<lparr>histogram_bin_size := 7\<rparr>]"
  have m: "Match stub_collaborators ?objects [stub_track] = ([(0, 0)], [], [1])"
    by (simp add: stub_collaborators_def)
  have r: "in_range (Match stub_collaborators ?objects [stub_track]) ?objects [stub_track]"
    unfolding m by (simp add: in_range_def)
  have push: "PushTrackedObjectToCache stub_collaborators stub_track stub_tracked_object =
      stub_track\<lparr>cached_objects := [stub_tracked_object]\<rparr>"
    by (simp add: stub_collaborators_def stub_track_def)
  have pool: "MlfTrackDataPool stub_collaborators = stub_track"
    by (simp add: stub_collaborators_def)
  from TrackObjectMatchAndAssign_ledger[OF r, of "[]"]
  show ?thesis
    using r unfolding m by (simp add: push pool numeral_2_eq_2)
qed

subsection \<open>Two runs of the pipeline\<close>

text \<open>
  The first frame of a session, from the main sensor, with three foreground detections
  and an empty ledger: three tracks are created, three objects are published, the two
  that the test double places outside the road structure are made static, and the session
  offset is the negated translation of the pose.
\<close>

lemma Track_first_frame:
  "(case Track stub_collaborators scene_engine scene_frame_main [] of
      Inl err \<Rightarrow> False
    | Inr (result, e', frame', calls') \<Rightarrow>
        result
        \<and> map track_id_member (foreground_track_data e') = [0, 1, 2]
        \<and> background_track_data e' = []
        \<and> map track_id (tracked_objects frame') = [0, 1, 2]
        \<and> map velocity (tracked_objects frame') = [(1, 0, 0), (0, 0, 0), (0, 0, 0)]
        \<and> global_to_local_offset e' = (- 100, - 200, - 3))"
  by code_simp

text \<open>
  A frame of a secondary sensor whose detections match the two existing tracks: the
  caches are filled, nothing is published, the latest visible time of the surviving track
  is untouched, the offset is kept, and the background track, last visible too long ago,
  is evicted without having been filtered.
\<close>

lemma Track_secondary_sensor:
  "(case Track stub_collaborators scene_engine_tracked scene_frame [] of
      Inl err \<Rightarrow> False
    | Inr (result, e', frame', calls') \<Rightarrow>
        result
        \<and> map latest_visible_time (foreground_track_data e') = [1]
        \<and> map (\<lambda>track. length (cached_objects track)) (foreground_track_data e') = [1]
        \<and> background_track_data e' = []
        \<and> tracked_objects frame' = []
        \<and> filter filter_or_collect calls' = []
        \<and> global_to_local_offset e' = (0, 0, 0))"
  by code_simp

end
